theory Spec2Isabelle
  imports Complex_Main "HOL-Library.Sublist"
begin

section \<open>The rule \<open>require-justification\<close> of eslint-plugin-nextpublic\<close>

text \<open>
  The repository holds two copies of the rule. The first (\<open>src/unnamed/part_000\<close>)
  accepts an \<open>rcPath\<close> option, searches the parent directories for the file
  \<open>.nextpublicrc\<close>, has a \<open>MemberExpression\<close> visitor and keeps a process-wide
  set of the names it found. The second (\<open>src/unnamed/part_001\<close>) reads the file in
  the working directory only and inlines the check in its three visitors. A definition
  taken from the first copy has the name the source gives it; one taken from the second
  copy has the suffix \<open>_p1\<close>.
\<close>

subsection \<open>Strings\<close>

text \<open>
  A JavaScript string is a sequence of UTF-16 code units and \<open>.length\<close> counts them.
  The model is \<^typ>\<open>string\<close>: a \<^typ>\<open>char\<close> stands for a code unit below 256.
\<close>

definition squote :: char where
  "squote = CHR 0x27"

definition dquote :: char where
  "dquote = CHR 0x22"

definition LF :: char where
  "LF = CHR 0x0A"

definition CR :: char where
  "CR = CHR 0x0D"

text \<open>\<open>String.prototype.trim\<close> removes white space and line terminators at both ends;
  below 256 these are the code units 9 to 13, 32 and 160.\<close>

definition isWhiteSpace :: "char \<Rightarrow> bool" where
  "isWhiteSpace c =
     (c = CHR 0x09 \<or> c = LF \<or> c = CHR 0x0B \<or> c = CHR 0x0C \<or> c = CR \<or> c = CHR 0x20 \<or> c = CHR 0xA0)"

definition trim :: "string \<Rightarrow> string" where
  "trim s = rev (dropWhile isWhiteSpace (rev (dropWhile isWhiteSpace s)))"

definition startsWith :: "string \<Rightarrow> string \<Rightarrow> bool" where
  "startsWith s p = prefix p s"

fun includes_str :: "string \<Rightarrow> string \<Rightarrow> bool" where
  "includes_str [] sub = (sub = [])"
| "includes_str (c # cs) sub = (prefix sub (c # cs) \<or> includes_str cs sub)"

text \<open>\<open>s.split(sep)\<close> for a separator of one code unit: the pieces between the
  separators, so that the empty string gives one empty piece.\<close>

fun split_str :: "string \<Rightarrow> char \<Rightarrow> string list" where
  "split_str [] sep = [[]]"
| "split_str (c # cs) sep =
     (if c = sep then [] # split_str cs sep
      else (case split_str cs sep of [] \<Rightarrow> [[c]] | l # ls \<Rightarrow> (c # l) # ls))"

text \<open>The decimal numeral a template literal prints for a count.\<close>

function showNat :: "nat \<Rightarrow> string" where
  "showNat n = (if n < 10 then [''0123456789'' ! n] else showNat (n div 10) @ [''0123456789'' ! (n mod 10)])"
  by pat_completeness auto
termination
  by (relation "measure (\<lambda>n. n)") auto

declare showNat.simps [simp del]

subsection \<open>The two regular expressions\<close>

text \<open>
  \<open>line.match(/^([^=]+)="(.*)"$/)\<close>. The class \<open>[^=]\<close> matches every code unit but
  \<open>=\<close>, so the first group is the text before the first \<open>=\<close> and must not be empty;
  \<open>="\<close> must follow it; without the \<open>m\<close> flag \<open>$\<close> is the end of the string, so
  the last code unit must be \<open>"\<close>; and \<open>.\<close> matches no line terminator, so the second
  group, the text in between, holds none. The result is the pair of the two groups, or
  \<open>None\<close> for \<open>null\<close>.
\<close>

definition isLineTerminator :: "char \<Rightarrow> bool" where
  "isLineTerminator c = (c = LF \<or> c = CR)"

definition matchKeyValue :: "string \<Rightarrow> (string \<times> string) option" where
  "matchKeyValue line =
     (let key = takeWhile (\<lambda>c. c \<noteq> CHR ''='') line;
          rest = dropWhile (\<lambda>c. c \<noteq> CHR ''='') line
      in if key = [] then None
         else (case rest of
                 e # q # v \<Rightarrow>
                   if e = CHR ''='' \<and> q = dquote \<and> v \<noteq> [] \<and> last v = dquote
                      \<and> \<not> list_ex isLineTerminator (butlast v)
                   then Some (key, butlast v)
                   else None
               | _ \<Rightarrow> None))"

text \<open>
  \<open>text.match(/NEXT_PUBLIC_[A-Z0-9_]+/g)\<close>: the matches from left to right, each as
  long as it can be, the search going on after the end of a match or, where there is
  none, one code unit further. The empty list stands for \<open>null\<close>.
\<close>

definition NEXT_PUBLIC :: string where
  "NEXT_PUBLIC = ''NEXT_PUBLIC_''"

definition isVarChar :: "char \<Rightarrow> bool" where
  "isVarChar c = (c \<in> set ''ABCDEFGHIJKLMNOPQRSTUVWXYZ0123456789_'')"

definition matchAt :: "string \<Rightarrow> (string \<times> string) option" where
  "matchAt s =
     (if prefix NEXT_PUBLIC s then
        (let rest = drop (length NEXT_PUBLIC) s; name = takeWhile isVarChar rest
         in if name = [] then None else Some (NEXT_PUBLIC @ name, dropWhile isVarChar rest))
      else None)"

lemma matchAt_shorter: "matchAt s = Some (m, rest) \<Longrightarrow> length rest < length s"
proof -
  assume a: "matchAt s = Some (m, rest)"
  then have p: "prefix NEXT_PUBLIC s"
    by (simp add: matchAt_def split: if_splits)
  from a p have r: "rest = dropWhile isVarChar (drop (length NEXT_PUBLIC) s)"
    by (simp add: matchAt_def Let_def split: if_splits)
  from p have "length NEXT_PUBLIC \<le> length s"
    by (rule prefix_length_le)
  moreover have "0 < length NEXT_PUBLIC"
    by (simp add: NEXT_PUBLIC_def)
  moreover have "length rest \<le> length (drop (length NEXT_PUBLIC) s)"
    unfolding r by (rule length_dropWhile_le)
  ultimately show ?thesis unfolding length_drop by arith
qed

function matchNextPublic :: "string \<Rightarrow> string list" where
  "matchNextPublic [] = []"
| "matchNextPublic (c # cs) =
     (case matchAt (c # cs) of
        Some (m, rest) \<Rightarrow> m # matchNextPublic rest
      | None \<Rightarrow> matchNextPublic cs)"
  by pat_completeness auto
termination
  by (relation "measure length") (auto dest: matchAt_shorter)

subsection \<open>Values\<close>

text \<open>
  What \<open>JSON.parse\<close> can return: \<open>null\<close>, a boolean, a number, a string, an array, or
  an object, which is the map of its own properties. A number is a double: a finite one
  is the rational it stands for, the two zeros being one here, and a numeral beyond the
  range of the doubles gives an infinity. \<open>undefined\<close> is the absence of a value.
\<close>

datatype number = Finite rat | PlusInfinity | MinusInfinity

datatype jsvalue =
    JNull
  | JBool bool
  | JNumber number
  | JString string
  | JArray "jsvalue list"
  | JObject "string \<Rightarrow> jsvalue option"

datatype error = ReadError | TypeError

text \<open>
  \<open>justifications[variable]\<close>: reading a property of \<open>null\<close> throws, an object gives
  its own property, and a boolean, a number, a string or an array has no property of
  such a name. The rule reads names that begin with \<open>NEXT_PUBLIC_\<close> only, and no
  property that a value inherits has such a name.
\<close>

definition getProperty :: "jsvalue \<Rightarrow> string \<Rightarrow> error + jsvalue option" where
  "getProperty v name =
     (case v of
        JNull \<Rightarrow> Inl TypeError
      | JObject properties \<Rightarrow> Inr (properties name)
      | _ \<Rightarrow> Inr None)"

text \<open>\<open>!x\<close>: \<open>undefined\<close>, \<open>null\<close>, \<open>false\<close>, zero and the empty string are falsy.\<close>

definition falsy :: "jsvalue option \<Rightarrow> bool" where
  "falsy x =
     (case x of
        None \<Rightarrow> True
      | Some JNull \<Rightarrow> True
      | Some (JBool b) \<Rightarrow> \<not> b
      | Some (JNumber d) \<Rightarrow> d = Finite 0
      | Some (JString s) \<Rightarrow> s = []
      | Some (JArray xs) \<Rightarrow> False
      | Some (JObject properties) \<Rightarrow> False)"

subsection \<open>The justification store and its file\<close>

text \<open>
  The object that \<open>parseSimpleFormat\<close> builds has texts for values: it is a map from
  names to texts, and \<open>toObject\<close> makes the value of it. The empty one is \<open>{}\<close>.
\<close>

type_synonym store = "string \<rightharpoonup> string"

definition toObject :: "store \<Rightarrow> jsvalue" where
  "toObject justifications = JObject (\<lambda>name. map_option JString (justifications name))"

text \<open>
  An absolute, normalised path is the list of its components below the root, which is
  the empty list: \<open>path.dirname\<close> drops the last component and leaves the root as it is,
  \<open>path.join\<close> with a file name adds a component.
\<close>

type_synonym path = "string list"

definition path_root :: "path \<Rightarrow> path" where
  "path_root p = []"

definition dirname :: "path \<Rightarrow> path" where
  "dirname p = butlast p"

definition join :: "path \<Rightarrow> string \<Rightarrow> path" where
  "join p name = p @ [name]"

definition rcName :: string where
  "rcName = ''.nextpublicrc''"

text \<open>
  What the platform gives the rule: \<open>JSON.parse\<close> (\<open>None\<close> when it throws); the
  operator \<open><\<close> with a value of a JSON text on its left and a number on its right, which
  converts the value to a number and can throw while doing so; \<open>path.resolve\<close>; and the
  file system, where a path is absent, or exists and cannot be read (\<open>fs.readFileSync\<close>
  throws), or holds a text.
\<close>

datatype entry = Absent | Unreadable | Readable string

record host =
  JSON_parse :: "string \<Rightarrow> jsvalue option"
  lessThan :: "jsvalue \<Rightarrow> nat \<Rightarrow> error + bool"
  path_resolve :: "path \<Rightarrow> string \<Rightarrow> path"
  fs :: "path \<Rightarrow> entry"

text \<open>
  \<open>x.length < n\<close>: a string and an array have their length; of an object it is the own
  property of that name, which \<open><\<close> converts, or \<open>undefined\<close>; a boolean and a number
  have none, and \<open>undefined < n\<close> is false. Reading \<open>.length\<close> of \<open>undefined\<close> or
  \<open>null\<close> throws.
\<close>

definition lengthBelow :: "host \<Rightarrow> jsvalue option \<Rightarrow> nat \<Rightarrow> error + bool" where
  "lengthBelow h x n =
     (case x of
        None \<Rightarrow> Inl TypeError
      | Some JNull \<Rightarrow> Inl TypeError
      | Some (JBool b) \<Rightarrow> Inr False
      | Some (JNumber d) \<Rightarrow> Inr False
      | Some (JString s) \<Rightarrow> Inr (length s < n)
      | Some (JArray xs) \<Rightarrow> Inr (length xs < n)
      | Some (JObject properties) \<Rightarrow>
          (case properties ''length'' of
             None \<Rightarrow> Inr False
           | Some l \<Rightarrow> lessThan h l n))"

definition existsSync :: "host \<Rightarrow> path \<Rightarrow> bool" where
  "existsSync h p = (fs h p \<noteq> Absent)"

definition readFileSync :: "host \<Rightarrow> path \<Rightarrow> error + string" where
  "readFileSync h p = (case fs h p of Readable content \<Rightarrow> Inr content | _ \<Rightarrow> Inl ReadError)"

text \<open>
  \<open>justifications[name] = text\<close> on an object made by \<open>{}\<close>: the property is set,
  but for the name \<open>__proto__\<close>, where the assignment goes to the setter that the object
  inherits, and that setter ignores a value that is not an object.
\<close>

definition setProperty :: "store \<Rightarrow> string \<Rightarrow> string \<Rightarrow> store" where
  "setProperty justifications name text =
     (if name = ''__proto__'' then justifications else justifications(name \<mapsto> text))"

text \<open>\<open>parseSimpleFormat\<close>: the body of the \<open>forEach\<close> is \<open>parseLine\<close>.\<close>

definition parseLine :: "string \<Rightarrow> store \<Rightarrow> store" where
  "parseLine line justifications =
     (if trim line = [] \<or> startsWith (trim line) ''#'' then justifications
      else (case matchKeyValue line of
              Some (key, val) \<Rightarrow> setProperty justifications (trim key) (trim val)
            | None \<Rightarrow> justifications))"

definition parseSimpleFormat :: "string \<Rightarrow> store" where
  "parseSimpleFormat content = fold parseLine (split_str content LF) Map.empty"

text \<open>The \<open>try\<close> around \<open>return JSON.parse(content)\<close> with \<open>parseSimpleFormat\<close> in its
  \<open>catch\<close>: whatever \<open>JSON.parse\<close> returns is returned, an object or not. The second copy
  of the rule has the body of \<open>parseSimpleFormat\<close> in the \<open>catch\<close>.\<close>

definition parseContent :: "host \<Rightarrow> string \<Rightarrow> jsvalue" where
  "parseContent h content =
     (case JSON_parse h content of
        Some v \<Rightarrow> v
      | None \<Rightarrow> toObject (parseSimpleFormat content))"

text \<open>\<open>fs.readFileSync\<close> followed by that \<open>try\<close>; nothing catches what the read throws.\<close>

definition readAndParse :: "host \<Rightarrow> path \<Rightarrow> error + jsvalue" where
  "readAndParse h p =
     (case readFileSync h p of Inl e \<Rightarrow> Inl e | Inr content \<Rightarrow> Inr (parseContent h content))"

definition notFound :: "(error + jsvalue) \<times> string list" where
  "notFound =
     (Inr (toObject Map.empty), [''No .nextpublicrc file found in any parent directory''])"

text \<open>The \<open>while\<close> loop of \<open>readJustificationsFile\<close>. The result is what the function
  returns or throws, with the lines it writes to the console.\<close>

function searchUpward :: "host \<Rightarrow> path \<Rightarrow> path \<Rightarrow> (error + jsvalue) \<times> string list" where
  "searchUpward h rootDir currentDir =
     (if currentDir \<noteq> rootDir then
        (let rcFilePath = join currentDir rcName in
         if existsSync h rcFilePath then (readAndParse h rcFilePath, [])
         else (let parentDir = dirname currentDir in
               if parentDir = currentDir then notFound
               else searchUpward h rootDir parentDir))
      else notFound)"
  by pat_completeness auto
termination
proof (relation "measure (\<lambda>(h, rootDir, currentDir). length currentDir)")
  show "wf (measure (\<lambda>(h, rootDir, currentDir). length currentDir))"
    by simp
next
  fix h :: host and rootDir currentDir rcFilePath parentDir :: path
  assume "parentDir = dirname currentDir" and "parentDir \<noteq> currentDir"
  then have "currentDir \<noteq> []"
    by (auto simp: dirname_def)
  then show "((h, rootDir, parentDir), (h, rootDir, currentDir))
      \<in> measure (\<lambda>(h, rootDir, currentDir). length currentDir)"
    using \<open>parentDir = dirname currentDir\<close> by (simp add: dirname_def)
qed

declare searchUpward.simps [simp del]

definition readJustificationsFile ::
  "host \<Rightarrow> path \<Rightarrow> string option \<Rightarrow> (error + jsvalue) \<times> string list" where
  "readJustificationsFile h cwd rcPath =
     (let customRcPath =
            (case rcPath of None \<Rightarrow> None
             | Some r \<Rightarrow> if r = [] then None else Some (path_resolve h cwd r))
      in case customRcPath of
           Some p \<Rightarrow>
             if existsSync h p then (readAndParse h p, [])
             else searchUpward h (path_root cwd) cwd
         | None \<Rightarrow> searchUpward h (path_root cwd) cwd)"

text \<open>The second copy: one path, and a \<open>try\<close> around the whole that catches what the
  read throws.\<close>

definition readJustificationsFile_p1 :: "host \<Rightarrow> path \<Rightarrow> jsvalue" where
  "readJustificationsFile_p1 h cwd =
     (let rcFilePath = path_resolve h cwd rcName in
      if existsSync h rcFilePath then
        (case readFileSync h rcFilePath of
           Inr content \<Rightarrow> parseContent h content
         | Inl e \<Rightarrow> toObject Map.empty)
      else toObject Map.empty)"

subsection \<open>The syntax tree and its traversal\<close>

text \<open>
  The nodes the visitors look at, and two constructors for the nodes of every other type:
  \<open>Node\<close> with the type and the children in the order the linter visits them, and
  \<open>NamedNode\<close> for a node without children that has a \<open>name\<close>, as a
  \<open>PrivateIdentifier\<close> has. The value of a \<open>Literal\<close> is a string or something else; a
  \<open>TemplateElement\<close> carries \<open>value.raw\<close>; a \<open>MemberExpression\<close> has its object, its
  property and the flag \<open>computed\<close>.
\<close>

datatype literal_value = StringValue string | OtherValue

datatype node =
    Literal literal_value
  | Identifier string
  | TemplateElement string
  | MemberExpression node node bool
  | Node string "node list"
  | NamedNode string string

text \<open>\<open>array.forEach\<close> with a callback that can throw: the first error ends it.\<close>

fun forEach :: "('a \<Rightarrow> 's \<Rightarrow> error + 's) \<Rightarrow> 'a list \<Rightarrow> 's \<Rightarrow> error + 's" where
  "forEach f [] st = Inr st"
| "forEach f (x # xs) st = (case f x st of Inl e \<Rightarrow> Inl e | Inr st1 \<Rightarrow> forEach f xs st1)"

lemma forEach_cong [fundef_cong]:
  "xs = ys \<Longrightarrow> st = st' \<Longrightarrow> (\<And>x s. x \<in> set ys \<Longrightarrow> f x s = g x s)
     \<Longrightarrow> forEach f xs st = forEach g ys st'"
proof -
  assume "xs = ys" and "st = st'" and fg: "\<And>x s. x \<in> set ys \<Longrightarrow> f x s = g x s"
  have "forEach f zs s = forEach g zs s" if "set zs \<subseteq> set ys" for zs s
    using that by (induction zs arbitrary: s) (simp_all add: fg split: sum.split)
  with \<open>xs = ys\<close> \<open>st = st'\<close> show ?thesis
    by simp
qed

text \<open>The linter calls the visitor of a node when it enters the node, then walks the
  children: of a \<open>MemberExpression\<close> the object, then the property. An error that a
  visitor throws ends the traversal.\<close>

fun traverse :: "(node \<Rightarrow> 's \<Rightarrow> error + 's) \<Rightarrow> node \<Rightarrow> 's \<Rightarrow> error + 's" where
  "traverse enter (MemberExpression obj prop computed) st =
     (case enter (MemberExpression obj prop computed) st of
        Inl e \<Rightarrow> Inl e
      | Inr st1 \<Rightarrow>
          (case traverse enter obj st1 of
             Inl e \<Rightarrow> Inl e
           | Inr st2 \<Rightarrow> traverse enter prop st2))"
| "traverse enter (Node t children) st =
     (case enter (Node t children) st of
        Inl e \<Rightarrow> Inl e
      | Inr st1 \<Rightarrow> forEach (traverse enter) children st1)"
| "traverse enter n st = enter n st"

subsection \<open>Diagnostics and the check of one name\<close>

record diagnostic =
  node :: node
  message :: string

text \<open>What one instance of the rule holds while a file is traversed: the reports made
  through \<open>context.report\<close> and the \<open>Set\<close> \<open>foundVariables\<close>, in insertion order.\<close>

record rule_state =
  reports :: "diagnostic list"
  foundVariables :: "string list"

definition initial :: rule_state where
  "initial = \<lparr>reports = [], foundVariables = []\<rparr>"

definition setAdd :: "string list \<Rightarrow> string \<Rightarrow> string list" where
  "setAdd xs x = (if x \<in> set xs then xs else xs @ [x])"

definition report :: "node \<Rightarrow> string \<Rightarrow> rule_state \<Rightarrow> rule_state" where
  "report n msg st = st\<lparr>reports := reports st @ [\<lparr>node = n, message = msg\<rparr>]\<rparr>"

definition requiresMessage :: "string \<Rightarrow> string" where
  "requiresMessage variable =
     ''NEXT_PUBLIC variable '' @ [squote] @ variable @ [squote]
       @ '' requires justification in .nextpublicrc file''"

definition tooShortMessage :: "string \<Rightarrow> string" where
  "tooShortMessage variable =
     ''Justification for NEXT_PUBLIC variable '' @ [squote] @ variable @ [squote]
       @ '' must be at least 8 characters long''"

text \<open>\<open>checkJustification\<close>: the name is added to the set, then the store is read.\<close>

definition checkJustification ::
  "host \<Rightarrow> string \<Rightarrow> jsvalue \<Rightarrow> node \<Rightarrow> rule_state \<Rightarrow> error + rule_state" where
  "checkJustification h variable justifications n st =
     (let st1 = st\<lparr>foundVariables := setAdd (foundVariables st) variable\<rparr> in
      case getProperty justifications variable of
        Inl e \<Rightarrow> Inl e
      | Inr x \<Rightarrow>
          if falsy x then Inr (report n (requiresMessage variable) st1)
          else (case lengthBelow h x 20 of
                  Inl e \<Rightarrow> Inl e
                | Inr short \<Rightarrow>
                    Inr (if short then report n (tooShortMessage variable) st1 else st1)))"

text \<open>The block the second copy repeats in its three visitors; its bound is 8.\<close>

definition checkJustification_p1 ::
  "host \<Rightarrow> string \<Rightarrow> jsvalue \<Rightarrow> node \<Rightarrow> rule_state \<Rightarrow> error + rule_state" where
  "checkJustification_p1 h variable justifications n st =
     (let st1 = st\<lparr>foundVariables := setAdd (foundVariables st) variable\<rparr> in
      case getProperty justifications variable of
        Inl e \<Rightarrow> Inl e
      | Inr x \<Rightarrow>
          if falsy x then Inr (report n (requiresMessage variable) st1)
          else (case lengthBelow h x 8 of
                  Inl e \<Rightarrow> Inl e
                | Inr short \<Rightarrow>
                    Inr (if short then report n (tooShortMessage variable) st1 else st1)))"

subsection \<open>The visitors of the first copy\<close>

definition Literal_visitor ::
  "host \<Rightarrow> jsvalue \<Rightarrow> node \<Rightarrow> rule_state \<Rightarrow> error + rule_state" where
  "Literal_visitor h justifications n st =
     (case n of
        Literal (StringValue v) \<Rightarrow>
          if includes_str v NEXT_PUBLIC then
            forEach (\<lambda>variable. checkJustification h variable justifications n)
              (matchNextPublic v) st
          else Inr st
      | _ \<Rightarrow> Inr st)"

definition Identifier_visitor ::
  "host \<Rightarrow> jsvalue \<Rightarrow> node \<Rightarrow> rule_state \<Rightarrow> error + rule_state" where
  "Identifier_visitor h justifications n st =
     (case n of
        Identifier name \<Rightarrow>
          if startsWith name NEXT_PUBLIC then checkJustification h name justifications n st
          else Inr st
      | _ \<Rightarrow> Inr st)"

definition TemplateElement_visitor ::
  "host \<Rightarrow> jsvalue \<Rightarrow> node \<Rightarrow> rule_state \<Rightarrow> error + rule_state" where
  "TemplateElement_visitor h justifications n st =
     (case n of
        TemplateElement raw \<Rightarrow>
          if includes_str raw NEXT_PUBLIC then
            forEach (\<lambda>variable. checkJustification h variable justifications n)
              (matchNextPublic raw) st
          else Inr st
      | _ \<Rightarrow> Inr st)"

text \<open>\<open>n.name\<close>: an identifier has one, and so has a node of another type that carries
  a name; for every other node it is \<open>undefined\<close>.\<close>

definition nodeName :: "node \<Rightarrow> string option" where
  "nodeName n =
     (case n of
        Identifier name \<Rightarrow> Some name
      | NamedNode t name \<Rightarrow> Some name
      | _ \<Rightarrow> None)"

text \<open>The conjuncts the two conditions of the \<open>MemberExpression\<close> visitor share: the
  object is a member expression whose object is named \<open>process\<close> and whose property is
  named \<open>env\<close>.\<close>

definition isProcessEnv :: "node \<Rightarrow> bool" where
  "isProcessEnv obj =
     (case obj of
        MemberExpression obj2 prop2 computed2 \<Rightarrow>
          nodeName obj2 = Some ''process'' \<and> nodeName prop2 = Some ''env''
      | _ \<Rightarrow> False)"

definition MemberExpression_visitor ::
  "host \<Rightarrow> jsvalue \<Rightarrow> node \<Rightarrow> rule_state \<Rightarrow> error + rule_state" where
  "MemberExpression_visitor h justifications n st =
     (case n of
        MemberExpression obj prop computed \<Rightarrow>
          (case (case prop of
                   Identifier name \<Rightarrow>
                     if isProcessEnv obj \<and> startsWith name NEXT_PUBLIC
                     then checkJustification h name justifications n st else Inr st
                 | _ \<Rightarrow> Inr st) of
             Inl e \<Rightarrow> Inl e
           | Inr st1 \<Rightarrow>
               (case prop of
                  Literal (StringValue v) \<Rightarrow>
                    if isProcessEnv obj \<and> startsWith v NEXT_PUBLIC
                    then checkJustification h v justifications n st1 else Inr st1
                | _ \<Rightarrow> Inr st1))
      | _ \<Rightarrow> Inr st)"

definition enter :: "host \<Rightarrow> jsvalue \<Rightarrow> node \<Rightarrow> rule_state \<Rightarrow> error + rule_state" where
  "enter h justifications n st =
     (case n of
        Literal v \<Rightarrow> Literal_visitor h justifications n st
      | Identifier name \<Rightarrow> Identifier_visitor h justifications n st
      | TemplateElement raw \<Rightarrow> TemplateElement_visitor h justifications n st
      | MemberExpression obj prop computed \<Rightarrow> MemberExpression_visitor h justifications n st
      | Node t children \<Rightarrow> Inr st
      | NamedNode t name \<Rightarrow> Inr st)"

subsection \<open>The visitors of the second copy\<close>

definition Literal_visitor_p1 ::
  "host \<Rightarrow> jsvalue \<Rightarrow> node \<Rightarrow> rule_state \<Rightarrow> error + rule_state" where
  "Literal_visitor_p1 h justifications n st =
     (case n of
        Literal (StringValue v) \<Rightarrow>
          if includes_str v NEXT_PUBLIC then
            forEach (\<lambda>variable. checkJustification_p1 h variable justifications n)
              (matchNextPublic v) st
          else Inr st
      | _ \<Rightarrow> Inr st)"

definition Identifier_visitor_p1 ::
  "host \<Rightarrow> jsvalue \<Rightarrow> node \<Rightarrow> rule_state \<Rightarrow> error + rule_state" where
  "Identifier_visitor_p1 h justifications n st =
     (case n of
        Identifier name \<Rightarrow>
          if startsWith name NEXT_PUBLIC then checkJustification_p1 h name justifications n st
          else Inr st
      | _ \<Rightarrow> Inr st)"

definition TemplateElement_visitor_p1 ::
  "host \<Rightarrow> jsvalue \<Rightarrow> node \<Rightarrow> rule_state \<Rightarrow> error + rule_state" where
  "TemplateElement_visitor_p1 h justifications n st =
     (case n of
        TemplateElement raw \<Rightarrow>
          if includes_str raw NEXT_PUBLIC then
            forEach (\<lambda>variable. checkJustification_p1 h variable justifications n)
              (matchNextPublic raw) st
          else Inr st
      | _ \<Rightarrow> Inr st)"

definition enter_p1 :: "host \<Rightarrow> jsvalue \<Rightarrow> node \<Rightarrow> rule_state \<Rightarrow> error + rule_state" where
  "enter_p1 h justifications n st =
     (case n of
        Literal v \<Rightarrow> Literal_visitor_p1 h justifications n st
      | Identifier name \<Rightarrow> Identifier_visitor_p1 h justifications n st
      | TemplateElement raw \<Rightarrow> TemplateElement_visitor_p1 h justifications n st
      | _ \<Rightarrow> Inr st)"

subsection \<open>One run of the first copy on a file\<close>

text \<open>
  The object \<open>global.eslintPluginNextPublic\<close>, or \<open>None\<close> while it is undefined, the
  number of listeners the rule has put on the \<open>exit\<close> event of the process, and the
  lines written to the console.
\<close>

record plugin_global =
  allFoundVariables :: "string list"
  processed :: bool
  exitListenerAdded :: bool
  justificationsCache :: "jsvalue option"

record process_state =
  eslintPluginNextPublic :: "plugin_global option"
  exitListeners :: nat
  console :: "string list"

text \<open>\<open>create\<close> up to its \<open>return\<close>: the cache is deleted, the file is read, and when
  the global object is undefined it is made and the listener is added. What it gives is
  the store the visitors close over, or what the read threw.\<close>

definition create ::
  "host \<Rightarrow> path \<Rightarrow> string option \<Rightarrow> process_state \<Rightarrow> (error + jsvalue) \<times> process_state" where
  "create h cwd rcPath p =
     (let p1 = (case eslintPluginNextPublic p of
                  None \<Rightarrow> p
                | Some g \<Rightarrow> p\<lparr>eslintPluginNextPublic := Some (g\<lparr>justificationsCache := None\<rparr>)\<rparr>);
          (r, logged) = readJustificationsFile h cwd rcPath;
          p2 = p1\<lparr>console := console p1 @ logged\<rparr>
      in case r of
           Inl e \<Rightarrow> (Inl e, p2)
         | Inr justifications \<Rightarrow>
             (Inr justifications,
              case eslintPluginNextPublic p2 of
                Some g \<Rightarrow> p2
              | None \<Rightarrow>
                  p2\<lparr>eslintPluginNextPublic :=
                       Some \<lparr>allFoundVariables = [], processed = False,
                             exitListenerAdded = True, justificationsCache = None\<rparr>,
                     exitListeners := Suc (exitListeners p2)\<rparr>))"

text \<open>\<open>Program:exit\<close>: every name found in the file is added to the process-wide set.
  Nothing is written.\<close>

definition Program_exit :: "rule_state \<Rightarrow> process_state \<Rightarrow> error + process_state" where
  "Program_exit st p =
     (if foundVariables st = [] then Inr p
      else (case eslintPluginNextPublic p of
              None \<Rightarrow> Inl TypeError
            | Some g \<Rightarrow>
                Inr (p\<lparr>eslintPluginNextPublic :=
                         Some (g\<lparr>allFoundVariables :=
                                    fold (\<lambda>variable found. setAdd found variable)
                                      (foundVariables st) (allFoundVariables g)\<rparr>)\<rparr>)))"





text \<open>The linter on one file: \<open>create\<close>, the traversal of the program, \<open>Program:exit\<close>.
  The result is the list of the diagnostics in the order of the reports, or the error
  that ended the run.\<close>

definition lintFile ::
  "host \<Rightarrow> path \<Rightarrow> string option \<Rightarrow> node \<Rightarrow> process_state
     \<Rightarrow> (error + diagnostic list) \<times> process_state" where
  "lintFile h cwd rcPath program p =
     (case create h cwd rcPath p of
        (Inl e, p1) \<Rightarrow> (Inl e, p1)
      | (Inr justifications, p1) \<Rightarrow>
          (case traverse (enter h justifications) program initial of
             Inl e \<Rightarrow> (Inl e, p1)
           | Inr st \<Rightarrow>
               (case Program_exit st p1 of
                  Inl e \<Rightarrow> (Inl e, p1)
                | Inr p2 \<Rightarrow> (Inr (reports st), p2))))"

subsection \<open>One run of the second copy on a file\<close>

definition foundMessage :: "nat \<Rightarrow> string" where
  "foundMessage count = ''Found '' @ showNat count @ '' unique NEXT_PUBLIC variables in the code.''"

text \<open>\<open>Program:exit\<close>: the lines it writes to the console.\<close>

definition Program_exit_p1 :: "rule_state \<Rightarrow> string list" where
  "Program_exit_p1 st =
     (let count = length (foundVariables st) in
      if count > 0 then [foundMessage count] else [])"

text \<open>The diagnostics of the file, or the error that ended the run, and the lines
  written to the console.\<close>

definition lintFile_p1 ::
  "host \<Rightarrow> path \<Rightarrow> node \<Rightarrow> (error + diagnostic list) \<times> string list" where
  "lintFile_p1 h cwd program =
     (let justifications = readJustificationsFile_p1 h cwd in
      case traverse (enter_p1 h justifications) program initial of
        Inl e \<Rightarrow> (Inl e, [])
      | Inr st \<Rightarrow> (Inr (reports st), Program_exit_p1 st))"

subsection \<open>Inputs of the examples\<close>

text \<open>
  The member expressions \<open>process.env.NAME\<close> and \<open>process.env["NAME"]\<close>, the
  declaration \<open>const id = init;\<close>, and the setting of the repository's tests: every
  directory has a readable \<open>.nextpublicrc\<close> with the same text, which \<open>JSON.parse\<close>
  reads as the mocked store, and the global object exists before the rule runs. No
  example has an entry that is an object with a \<open>length\<close>, so that the hosts of the
  examples are never asked to compare.
\<close>

definition neverAsked :: "jsvalue \<Rightarrow> nat \<Rightarrow> error + bool" where
  "neverAsked v n = Inr False"

definition processEnv :: node where
  "processEnv = MemberExpression (Identifier ''process'') (Identifier ''env'') False"

definition processEnvStatic :: "string \<Rightarrow> node" where
  "processEnvStatic name = MemberExpression processEnv (Identifier name) False"

definition processEnvComputed :: "string \<Rightarrow> node" where
  "processEnvComputed name = MemberExpression processEnv (Literal (StringValue name)) True"

definition constDeclaration :: "string \<Rightarrow> node \<Rightarrow> node" where
  "constDeclaration name init =
     Node ''VariableDeclaration'' [Node ''VariableDeclarator'' [Identifier name, init]]"

definition testHost :: "string \<Rightarrow> jsvalue \<Rightarrow> host" where
  "testHost text mockJustifications =
     \<lparr>JSON_parse = (\<lambda>s. if s = text then Some mockJustifications else None),
      lessThan = neverAsked,
      path_resolve = (\<lambda>d r. d @ [r]),
      fs = (\<lambda>p. if p \<noteq> [] \<and> last p = rcName then Readable text else Absent)\<rparr>"

definition testProcess :: process_state where
  "testProcess =
     \<lparr>eslintPluginNextPublic =
        Some \<lparr>allFoundVariables = [], processed = False,
              exitListenerAdded = True, justificationsCache = None\<rparr>,
      exitListeners = 0, console = []\<rparr>"

definition freshProcess :: process_state where
  "freshProcess = \<lparr>eslintPluginNextPublic = None, exitListeners = 0, console = []\<rparr>"

text \<open>A host whose only file is the one at the given path, and \<open>JSON.parse\<close> rejects
  what it holds.\<close>

definition oneFileHost :: "path \<Rightarrow> entry \<Rightarrow> host" where
  "oneFileHost file e =
     \<lparr>JSON_parse = (\<lambda>s. None),
      lessThan = neverAsked,
      path_resolve = (\<lambda>d r. d @ [r]),
      fs = (\<lambda>p. if p = file then e else Absent)\<rparr>"



definition exampleEntry :: string where
  "exampleEntry =
     ''NEXT_PUBLIC_API_URL='' @ [dquote] @ ''Needed for client-side API calls'' @ [dquote]"

definition exampleOther :: string where
  "exampleOther = ''NEXT_PUBLIC_FLAG: no equals sign''"




text \<open>A host with the listed files and no other.\<close>

definition filesHost :: "(path \<times> entry) list \<Rightarrow> host" where
  "filesHost files =
     \<lparr>JSON_parse = (\<lambda>s. None),
      lessThan = neverAsked,
      path_resolve = (\<lambda>d r. d @ [r]),
      fs = (\<lambda>p. case map_of files p of Some e \<Rightarrow> e | None \<Rightarrow> Absent)\<rparr>"

text \<open>A file with three references to two names:
  \<open>const a = NEXT_PUBLIC_A; const b = "NEXT_PUBLIC_B"; const c = NEXT_PUBLIC_A;\<close>.\<close>

definition threeReferences :: node where
  "threeReferences =
     Node ''Program''
       [constDeclaration ''a'' (Identifier ''NEXT_PUBLIC_A''),
        constDeclaration ''b'' (Literal (StringValue ''NEXT_PUBLIC_B'')),
        constDeclaration ''c'' (Identifier ''NEXT_PUBLIC_A'')]"

subsection \<open>What a check adds\<close>

text \<open>
  The functions of this subsection are not in the source: the properties below are
  stated with them. \<open>verdict\<close> gives the diagnostics of one check when the store is an
  object of texts: none, or one of the two messages.
\<close>

definition verdict :: "nat \<Rightarrow> store \<Rightarrow> node \<Rightarrow> string \<Rightarrow> diagnostic list" where
  "verdict minimum justifications n variable =
     (case justifications variable of
        None \<Rightarrow> [\<lparr>node = n, message = requiresMessage variable\<rparr>]
      | Some text \<Rightarrow>
          if text = [] then [\<lparr>node = n, message = requiresMessage variable\<rparr>]
          else if length text < minimum then [\<lparr>node = n, message = tooShortMessage variable\<rparr>]
          else [])"

text \<open>The messages of one check for a store of any kind, or the error it throws, and
  the state after a check with these messages.\<close>

definition outcome :: "host \<Rightarrow> nat \<Rightarrow> jsvalue \<Rightarrow> string \<Rightarrow> error + string list" where
  "outcome h minimum justifications variable =
     (case getProperty justifications variable of
        Inl e \<Rightarrow> Inl e
      | Inr x \<Rightarrow>
          if falsy x then Inr [requiresMessage variable]
          else (case lengthBelow h x minimum of
                  Inl e \<Rightarrow> Inl e
                | Inr short \<Rightarrow> Inr (if short then [tooShortMessage variable] else [])))"

definition noted :: "node \<Rightarrow> string \<Rightarrow> string list \<Rightarrow> rule_state \<Rightarrow> rule_state" where
  "noted n variable msgs st =
     st\<lparr>foundVariables := setAdd (foundVariables st) variable,
        reports := reports st @ map (\<lambda>m. \<lparr>node = n, message = m\<rparr>) msgs\<rparr>"

text \<open>The state after the checks of a list of names against an object of texts.\<close>

definition checked :: "nat \<Rightarrow> store \<Rightarrow> node \<Rightarrow> string list \<Rightarrow> rule_state \<Rightarrow> rule_state" where
  "checked minimum js n vs st =
     st\<lparr>foundVariables := fold (\<lambda>v found. setAdd found v) vs (foundVariables st),
        reports := reports st @ concat (map (verdict minimum js n) vs)\<rparr>"


section \<open>Properties\<close>

subsection \<open>The check of one name\<close>




lemma checkJustification_outcome:
  "checkJustification h v j n st = map_sum id (\<lambda>msgs. noted n v msgs st) (outcome h 20 j v)"
  by (simp add: checkJustification_def outcome_def noted_def report_def Let_def split: sum.split)

lemma checkJustification_p1_outcome:
  "checkJustification_p1 h v j n st = map_sum id (\<lambda>msgs. noted n v msgs st) (outcome h 8 j v)"
  by (simp add: checkJustification_p1_def outcome_def noted_def report_def Let_def split: sum.split)

lemma outcome_toObject: "outcome h m (toObject js) v = Inr (map message (verdict m js n v))"
  by (simp add: outcome_def toObject_def getProperty_def falsy_def lengthBelow_def verdict_def
      split: option.split)

lemma noted_verdict:
  "noted n v (map message (verdict m js n v)) st = checked m js n [v] st"
  by (simp add: noted_def checked_def verdict_def split: option.split)

lemma checkJustification_text:
  "checkJustification h v (toObject js) n st = Inr (checked 20 js n [v] st)"
  by (simp add: checkJustification_outcome outcome_toObject [where n = n] noted_verdict)

lemma checkJustification_p1_text:
  "checkJustification_p1 h v (toObject js) n st = Inr (checked 8 js n [v] st)"
  by (simp add: checkJustification_p1_outcome outcome_toObject [where n = n] noted_verdict)




subsection \<open>The visitors\<close>








subsection \<open>The search for the file\<close>

lemma searchUpward_root: "searchUpward h [] [] = notFound"
  by (subst searchUpward.simps) simp

lemma searchUpward_snoc:
  "searchUpward h [] (xs @ [x]) =
     (if fs h (xs @ [x, rcName]) \<noteq> Absent then (readAndParse h (xs @ [x, rcName]), [])
      else searchUpward h [] xs)"
  by (subst searchUpward.simps) (simp add: existsSync_def join_def dirname_def Let_def)

lemma searchUpward_absent:
  "(\<And>d. d \<noteq> [] \<Longrightarrow> prefix d cwd \<Longrightarrow> fs h (d @ [rcName]) = Absent)
     \<Longrightarrow> searchUpward h [] cwd = notFound"
proof (induction cwd rule: rev_induct)
  case Nil
  show ?case by (rule searchUpward_root)
next
  case (snoc x xs)
  have "fs h ((xs @ [x]) @ [rcName]) = Absent"
    by (rule snoc.prems) simp_all
  moreover have "searchUpward h [] xs = notFound"
  proof (rule snoc.IH)
    fix d :: path
    assume "d \<noteq> []" and "prefix d xs"
    then show "fs h (d @ [rcName]) = Absent"
      by (intro snoc.prems) simp_all
  qed
  ultimately show ?case
    by (simp add: searchUpward_snoc)
qed

lemma searchUpward_found:
  "d \<noteq> [] \<Longrightarrow> prefix d cwd \<Longrightarrow> fs h (d @ [rcName]) \<noteq> Absent
     \<Longrightarrow> (\<And>e. prefix e cwd \<Longrightarrow> strict_prefix d e \<Longrightarrow> fs h (e @ [rcName]) = Absent)
     \<Longrightarrow> searchUpward h [] cwd = (readAndParse h (d @ [rcName]), [])"
proof (induction cwd rule: rev_induct)
  case Nil
  then show ?case by simp
next
  case (snoc x xs)
  show ?case
  proof (cases "d = xs @ [x]")
    case True
    with snoc.prems(3) show ?thesis
      by (simp add: searchUpward_snoc)
  next
    case False
    with snoc.prems(2) have dxs: "prefix d xs"
      by simp
    then have "strict_prefix d (xs @ [x])"
      using False by (simp add: strict_prefix_def)
    then have a: "fs h ((xs @ [x]) @ [rcName]) = Absent"
      by (intro snoc.prems(4)) simp_all
    have "searchUpward h [] xs = (readAndParse h (d @ [rcName]), [])"
    proof (rule snoc.IH [OF snoc.prems(1) dxs snoc.prems(3)])
      fix e :: path
      assume "prefix e xs" and "strict_prefix d e"
      then show "fs h (e @ [rcName]) = Absent"
        by (intro snoc.prems(4)) simp_all
    qed
    with a show ?thesis
      by (simp add: searchUpward_snoc)
  qed
qed

lemma readAndParse_Readable:
  "fs h p = Readable c \<Longrightarrow> readAndParse h p = Inr (parseContent h c)"
  by (simp add: readAndParse_def readFileSync_def)

lemma readJustificationsFile_search:
  "(\<And>r. rcPath = Some r \<Longrightarrow> r \<noteq> [] \<Longrightarrow> fs h (path_resolve h cwd r) = Absent)
     \<Longrightarrow> readJustificationsFile h cwd rcPath = searchUpward h [] cwd"
  by (auto simp: readJustificationsFile_def path_root_def existsSync_def Let_def split: option.splits)

subsection \<open>The result of a run\<close>

lemma create_global:
  "create h cwd rcPath p = (Inr j, p1) \<Longrightarrow> eslintPluginNextPublic p1 \<noteq> None"
  by (auto simp: create_def Let_def split: prod.splits sum.splits option.splits)

lemma create_result:
  "fst (create h cwd rcPath p) = fst (readJustificationsFile h cwd rcPath)"
  by (auto simp: create_def Let_def split: prod.splits sum.splits option.splits)

lemma lintFile_result:
  "fst (lintFile h cwd rcPath program p) =
     (case fst (readJustificationsFile h cwd rcPath) of
        Inl e \<Rightarrow> Inl e
      | Inr j \<Rightarrow> map_sum id reports (traverse (enter h j) program initial))"
proof (cases "create h cwd rcPath p")
  case (Pair r p1)
  then have r: "fst (readJustificationsFile h cwd rcPath) = r"
    using create_result [of h cwd rcPath p] by simp
  show ?thesis
  proof (cases r)
    case (Inl e)
    with Pair r show ?thesis by (simp add: lintFile_def)
  next
    case (Inr j)
    with Pair have "eslintPluginNextPublic p1 \<noteq> None"
      by (auto dest: create_global)
    then obtain g where "eslintPluginNextPublic p1 = Some g" by auto
    with Pair Inr r show ?thesis
      by (simp add: lintFile_def Program_exit_def Let_def split: sum.split)
  qed
qed

subsection \<open>The line format\<close>

lemma split_str_no_sep: "c \<notin> set l \<Longrightarrow> split_str l c = [l]"
  by (induction l) auto



lemma matchKeyValue_shape:
  "matchKeyValue line = Some (key, val) \<longleftrightarrow>
     key \<noteq> [] \<and> CHR ''='' \<notin> set key \<and> \<not> list_ex isLineTerminator val
     \<and> line = key @ [CHR ''='', dquote] @ val @ [dquote]"
proof
  assume m: "matchKeyValue line = Some (key, val)"
  let ?P = "\<lambda>c. c \<noteq> CHR ''=''"
  from m have k: "key = takeWhile ?P line" and kn: "key \<noteq> []"
    by (auto simp: matchKeyValue_def Let_def split: if_splits list.splits)
  from m obtain v where r: "dropWhile ?P line = CHR ''='' # dquote # v"
    and v: "v \<noteq> []" "last v = dquote" "\<not> list_ex isLineTerminator (butlast v)" "val = butlast v"
    by (auto simp: matchKeyValue_def Let_def split: if_splits list.splits)
  have "line = takeWhile ?P line @ dropWhile ?P line"
    by simp
  also have "\<dots> = key @ [CHR ''='', dquote] @ butlast v @ [last v]"
    using k r v(1) by simp
  finally have "line = key @ [CHR ''='', dquote] @ val @ [dquote]"
    using v by simp
  moreover have "CHR ''='' \<notin> set key"
    unfolding k by (auto dest: set_takeWhileD)
  ultimately show "key \<noteq> [] \<and> CHR ''='' \<notin> set key \<and> \<not> list_ex isLineTerminator val
     \<and> line = key @ [CHR ''='', dquote] @ val @ [dquote]"
    using kn v by simp
next
  assume a: "key \<noteq> [] \<and> CHR ''='' \<notin> set key \<and> \<not> list_ex isLineTerminator val
     \<and> line = key @ [CHR ''='', dquote] @ val @ [dquote]"
  let ?P = "\<lambda>c. c \<noteq> CHR ''=''"
  from a have l: "line = key @ CHR ''='' # (dquote # val @ [dquote])"
    by simp
  from a have t: "takeWhile ?P line = key"
    unfolding l by (subst takeWhile_append2) auto
  from a have d: "dropWhile ?P line = CHR ''='' # dquote # val @ [dquote]"
    unfolding l by (subst dropWhile_append2) auto
  from a have kn: "key \<noteq> []" and nt: "\<not> list_ex isLineTerminator val"
    by simp_all
  show "matchKeyValue line = Some (key, val)"
    using kn nt by (simp add: matchKeyValue_def Let_def t d)
qed

lemma in_set_dropWhile: "x \<in> set xs \<Longrightarrow> \<not> P x \<Longrightarrow> x \<in> set (dropWhile P xs)"
  by (induction xs) auto

lemma trim_keeps: "c \<in> set s \<Longrightarrow> \<not> isWhiteSpace c \<Longrightarrow> c \<in> set (trim s)"
  by (simp add: trim_def in_set_dropWhile)

lemma parseLine_entry:
  assumes "\<not> startsWith (trim line) ''#''" and "matchKeyValue line = Some (key, val)"
  shows "parseLine line m = setProperty m (trim key) (trim val)"
proof -
  from assms(2) have "line = key @ [CHR ''='', dquote] @ val @ [dquote]"
    by (simp add: matchKeyValue_shape)
  then have "CHR ''='' \<in> set line"
    by simp
  then have "CHR ''='' \<in> set (trim line)"
    by (rule trim_keeps) (simp add: isWhiteSpace_def LF_def CR_def)
  then have "trim line \<noteq> []"
    by auto
  with assms show ?thesis
    by (simp add: parseLine_def)
qed


subsection \<open>The example file\<close>

lemma exampleEntry_line:
  "parseLine exampleEntry m = m(''NEXT_PUBLIC_API_URL'' \<mapsto> ''Needed for client-side API calls'')"
proof -
  have m: "matchKeyValue exampleEntry
      = Some (''NEXT_PUBLIC_API_URL'', ''Needed for client-side API calls'')"
    by code_simp
  have c: "\<not> startsWith (trim exampleEntry) ''#''"
    by code_simp
  have t: "trim ''NEXT_PUBLIC_API_URL'' = ''NEXT_PUBLIC_API_URL''"
    "trim ''Needed for client-side API calls'' = ''Needed for client-side API calls''"
    by code_simp+
  have "parseLine exampleEntry m
      = setProperty m ''NEXT_PUBLIC_API_URL'' ''Needed for client-side API calls''"
    by (simp only: parseLine_entry [OF c m] t)
  then show ?thesis
    by (simp add: setProperty_def)
qed

lemma exampleEntry_parsed:
  "JSON_parse h exampleEntry = None \<Longrightarrow>
     parseContent h exampleEntry
       = toObject [''NEXT_PUBLIC_API_URL'' \<mapsto> ''Needed for client-side API calls'']"
proof -
  assume j: "JSON_parse h exampleEntry = None"
  have l: "LF \<notin> set exampleEntry"
    by (simp add: exampleEntry_def LF_def dquote_def)
  have "parseSimpleFormat exampleEntry = parseLine exampleEntry Map.empty"
    by (simp add: parseSimpleFormat_def split_str_no_sep [OF l])
  also have "\<dots> = [''NEXT_PUBLIC_API_URL'' \<mapsto> ''Needed for client-side API calls'']"
    by (simp only: exampleEntry_line)
  finally show ?thesis
    using j by (simp add: parseContent_def)
qed

subsection \<open>The two forms of access to \<open>process.env\<close>\<close>





text \<open>
  The visitor of the first copy reads the names of the nodes of the object, of whatever
  type they are, and so takes the private field of \<open>process.#env.NEXT_PUBLIC_API_KEY\<close>
  for \<open>env\<close>: with the empty store that access is reported twice as well.
\<close>

lemma private_field_access:
  "map_sum id reports
     (traverse (enter (testHost ''{}'' (toObject Map.empty)) (toObject Map.empty))
        (MemberExpression
           (MemberExpression (Identifier ''process'') (NamedNode ''PrivateIdentifier'' ''env'') False)
           (Identifier ''NEXT_PUBLIC_API_KEY'') False)
        initial)
     = Inr [\<lparr>node = MemberExpression
                      (MemberExpression (Identifier ''process'')
                         (NamedNode ''PrivateIdentifier'' ''env'') False)
                      (Identifier ''NEXT_PUBLIC_API_KEY'') False,
              message = requiresMessage ''NEXT_PUBLIC_API_KEY''\<rparr>,
            \<lparr>node = Identifier ''NEXT_PUBLIC_API_KEY'',
              message = requiresMessage ''NEXT_PUBLIC_API_KEY''\<rparr>]"
  by code_simp












subsection \<open>The set of found names\<close>


lemma set_setAdd: "set (setAdd xs x) = insert x (set xs)"
  by (auto simp: setAdd_def)














section \<open>The claims\<close>

subsection \<open>C1: a member access on \<open>process.env\<close> is reported twice\<close>

text \<open>
  C1 says that every occurrence of a name that is absent from the store gets exactly one
  diagnostic \<open>requires justification\<close>, and in particular that \<open>process.env.NEXT_PUBLIC_X\<close>
  and \<open>process.env["NEXT_PUBLIC_X"]\<close> get one and not more. The repository's tests expect
  one error for \<open>const url = process.env.NEXT_PUBLIC_API_KEY;\<close> and one for
  \<open>const key = process.env["NEXT_PUBLIC_API_KEY"];\<close> with an empty store. In the setting
  of those tests the first copy of the rule reports each of them twice: once at the member
  expression, by the \<open>MemberExpression\<close> visitor, and once at its property, by the
  \<open>Identifier\<close> or the \<open>Literal\<close> visitor.
\<close>

theorem member_access_reported_twice:
  "fst (lintFile (testHost ''{}'' (toObject Map.empty)) [''project''] None
          (Node ''Program'' [constDeclaration ''url'' (processEnvStatic ''NEXT_PUBLIC_API_KEY'')])
          testProcess)
     = Inr [\<lparr>node = processEnvStatic ''NEXT_PUBLIC_API_KEY'',
              message = requiresMessage ''NEXT_PUBLIC_API_KEY''\<rparr>,
            \<lparr>node = Identifier ''NEXT_PUBLIC_API_KEY'',
              message = requiresMessage ''NEXT_PUBLIC_API_KEY''\<rparr>]
   \<and> fst (lintFile (testHost ''{}'' (toObject Map.empty)) [''project''] None
          (Node ''Program'' [constDeclaration ''key'' (processEnvComputed ''NEXT_PUBLIC_API_KEY'')])
          testProcess)
     = Inr [\<lparr>node = processEnvComputed ''NEXT_PUBLIC_API_KEY'',
              message = requiresMessage ''NEXT_PUBLIC_API_KEY''\<rparr>,
            \<lparr>node = Literal (StringValue ''NEXT_PUBLIC_API_KEY''),
              message = requiresMessage ''NEXT_PUBLIC_API_KEY''\<rparr>]"
  by code_simp

subsection \<open>C2: a name that has an entry\<close>




subsection \<open>C3: where the loader looks\<close>

text \<open>
  C3 says that, when no explicit file is in use, the loader examines the working
  directory and then each ancestor directory up to the root of the file system and parses
  the first \<open>.nextpublicrc\<close> it finds. The loop of \<open>readJustificationsFile\<close> stops
  before the root: when the working directory is the root, the file in the working
  directory is not examined, and when the only file is in the root, an ancestor of the
  working directory, it is not examined either. In both cases the store is the empty
  object although the file holds an entry.
\<close>

theorem root_directory_counterexample:
  "fs (oneFileHost [rcName] (Readable exampleEntry)) (join [] rcName) = Readable exampleEntry
   \<and> getProperty (parseContent (oneFileHost [rcName] (Readable exampleEntry)) exampleEntry)
        ''NEXT_PUBLIC_API_URL''
       = Inr (Some (JString ''Needed for client-side API calls''))
   \<and> readJustificationsFile (oneFileHost [rcName] (Readable exampleEntry)) [] None
       = (Inr (toObject Map.empty), [''No .nextpublicrc file found in any parent directory''])
   \<and> readJustificationsFile (oneFileHost [rcName] (Readable exampleEntry)) [''home''] None
       = (Inr (toObject Map.empty), [''No .nextpublicrc file found in any parent directory''])
   \<and> getProperty (toObject Map.empty) ''NEXT_PUBLIC_API_URL'' = Inr None"
proof -
  let ?h = "oneFileHost [rcName] (Readable exampleEntry)"
  have a: "fs ?h (join [] rcName) = Readable exampleEntry"
    by (simp add: oneFileHost_def join_def)
  have "parseContent ?h exampleEntry
      = toObject [''NEXT_PUBLIC_API_URL'' \<mapsto> ''Needed for client-side API calls'']"
    by (rule exampleEntry_parsed) (simp add: oneFileHost_def)
  then have b: "getProperty (parseContent ?h exampleEntry) ''NEXT_PUBLIC_API_URL''
      = Inr (Some (JString ''Needed for client-side API calls''))"
    by (simp add: getProperty_def toObject_def)
  have c: "readJustificationsFile ?h [] None = notFound"
    by (simp add: readJustificationsFile_def path_root_def searchUpward_root)
  have "readJustificationsFile ?h [''home''] None = searchUpward ?h [] ([] @ [''home''])"
    by (simp add: readJustificationsFile_def path_root_def)
  also have "\<dots> = notFound"
    by (simp only: searchUpward_snoc) (simp add: oneFileHost_def searchUpward_root)
  finally have d: "readJustificationsFile ?h [''home''] None = notFound" .
  have e: "getProperty (toObject Map.empty) ''NEXT_PUBLIC_API_URL'' = Inr None"
    by (simp add: getProperty_def toObject_def)
  from a b c d e show ?thesis
    by (simp add: notFound_def)
qed

text \<open>
  C3 as amended: if an explicit path is given and the file exists, the loader reads and
  parses that file only. Otherwise it examines the working directory and then each
  ancestor directory in turn, the root of the file system excluded (so nothing at all
  when the working directory is the root), and parses the first \<open>.nextpublicrc\<close> found;
  if none of these directories has one, it returns the empty object without raising an
  error, after writing a line to the console. The theorem speaks of files that can be
  read.
\<close>

theorem loader_contract:
  "(rcPath = Some r \<and> r \<noteq> [] \<and> fs h (path_resolve h cwd r) = Readable content \<longrightarrow>
      readJustificationsFile h cwd rcPath = (Inr (parseContent h content), []))
   \<and> ((\<forall>r. rcPath = Some r \<and> r \<noteq> [] \<longrightarrow> fs h (path_resolve h cwd r) = Absent)
       \<and> d \<noteq> [] \<and> prefix d cwd \<and> fs h (join d rcName) = Readable content
       \<and> (\<forall>e. prefix e cwd \<and> strict_prefix d e \<longrightarrow> fs h (join e rcName) = Absent) \<longrightarrow>
      readJustificationsFile h cwd rcPath = (Inr (parseContent h content), []))
   \<and> ((\<forall>r. rcPath = Some r \<and> r \<noteq> [] \<longrightarrow> fs h (path_resolve h cwd r) = Absent)
       \<and> (\<forall>e. e \<noteq> [] \<and> prefix e cwd \<longrightarrow> fs h (join e rcName) = Absent) \<longrightarrow>
      readJustificationsFile h cwd rcPath
        = (Inr (toObject Map.empty), [''No .nextpublicrc file found in any parent directory'']))"
proof (intro conjI impI)
  assume "rcPath = Some r \<and> r \<noteq> [] \<and> fs h (path_resolve h cwd r) = Readable content"
  then show "readJustificationsFile h cwd rcPath = (Inr (parseContent h content), [])"
    by (simp add: readJustificationsFile_def existsSync_def readAndParse_Readable)
next
  assume a: "(\<forall>r. rcPath = Some r \<and> r \<noteq> [] \<longrightarrow> fs h (path_resolve h cwd r) = Absent)
       \<and> d \<noteq> [] \<and> prefix d cwd \<and> fs h (join d rcName) = Readable content
       \<and> (\<forall>e. prefix e cwd \<and> strict_prefix d e \<longrightarrow> fs h (join e rcName) = Absent)"
  then have "readJustificationsFile h cwd rcPath = searchUpward h [] cwd"
    by (intro readJustificationsFile_search) simp
  also have "\<dots> = (readAndParse h (d @ [rcName]), [])"
    using a by (intro searchUpward_found) (simp_all add: join_def)
  also have "readAndParse h (d @ [rcName]) = Inr (parseContent h content)"
    using a by (intro readAndParse_Readable) (simp add: join_def)
  finally show "readJustificationsFile h cwd rcPath = (Inr (parseContent h content), [])" .
next
  assume a: "(\<forall>r. rcPath = Some r \<and> r \<noteq> [] \<longrightarrow> fs h (path_resolve h cwd r) = Absent)
       \<and> (\<forall>e. e \<noteq> [] \<and> prefix e cwd \<longrightarrow> fs h (join e rcName) = Absent)"
  then have "readJustificationsFile h cwd rcPath = searchUpward h [] cwd"
    by (intro readJustificationsFile_search) simp
  also have "\<dots> = notFound"
    using a by (intro searchUpward_absent) (simp add: join_def)
  finally show "readJustificationsFile h cwd rcPath
        = (Inr (toObject Map.empty), [''No .nextpublicrc file found in any parent directory''])"
    by (simp add: notFound_def)
qed

theorem loader_contract_witness:
  "readJustificationsFile
      (filesHost [([''home'', ''project'', ''custom.rc''], Readable exampleEntry),
                  ([''home'', ''project'', rcName], Readable exampleOther)])
      [''home'', ''project''] (Some ''custom.rc'')
     = (Inr (toObject [''NEXT_PUBLIC_API_URL'' \<mapsto> ''Needed for client-side API calls'']), [])
   \<and> readJustificationsFile
      (filesHost [([''home'', rcName], Readable exampleEntry), ([rcName], Readable exampleOther)])
      [''home'', ''project'', ''app''] None
     = (Inr (toObject [''NEXT_PUBLIC_API_URL'' \<mapsto> ''Needed for client-side API calls'']), [])
   \<and> readJustificationsFile (filesHost [([rcName], Readable exampleEntry)])
      [''home'', ''project'', ''app''] (Some ''missing.rc'')
     = (Inr (toObject Map.empty), [''No .nextpublicrc file found in any parent directory''])"
proof -
  let ?m = "toObject [''NEXT_PUBLIC_API_URL'' \<mapsto> ''Needed for client-side API calls'']"
  let ?h1 = "filesHost [([''home'', ''project'', ''custom.rc''], Readable exampleEntry),
                  ([''home'', ''project'', rcName], Readable exampleOther)]"
  let ?h2 = "filesHost [([''home'', rcName], Readable exampleEntry), ([rcName], Readable exampleOther)]"
  let ?h3 = "filesHost [([rcName], Readable exampleEntry)]"
  have p: "parseContent (filesHost files) exampleEntry = ?m" for files
    by (rule exampleEntry_parsed) (simp add: filesHost_def)
  have a: "readJustificationsFile ?h1 [''home'', ''project''] (Some ''custom.rc'') = (Inr ?m, [])"
    using loader_contract [of "Some ''custom.rc''" "''custom.rc''" ?h1 "[''home'', ''project'']"
        exampleEntry "[]"]
    by (simp add: p) (simp add: filesHost_def)
  have b: "readJustificationsFile ?h2 [''home'', ''project'', ''app''] None = (Inr ?m, [])"
    using loader_contract [of None "[]" ?h2 "[''home'', ''project'', ''app'']"
        exampleEntry "[''home'']"]
    by (simp add: p) (auto simp: filesHost_def join_def rcName_def strict_prefix_def)
  have c: "readJustificationsFile ?h3 [''home'', ''project'', ''app''] (Some ''missing.rc'')
      = (Inr (toObject Map.empty), [''No .nextpublicrc file found in any parent directory''])"
    using loader_contract [of "Some ''missing.rc''" "''missing.rc''" ?h3
        "[''home'', ''project'', ''app'']" exampleEntry "[]"]
    by (auto simp: filesHost_def join_def rcName_def)
  from a b c show ?thesis by simp
qed

subsection \<open>C4: a file that cannot be read\<close>

text \<open>
  C4 says that a \<open>.nextpublicrc\<close> that exists and cannot be read is treated as a missing
  one: the store is empty and no error leaves the rule. The second copy of the rule does
  so, its \<open>try\<close> catches what the read throws. The first copy has no \<open>try\<close> around the
  read: with an unreadable file in the working directory, \<open>readJustificationsFile\<close>
  throws, and so does the run of the rule on any file.
\<close>

theorem unreadable_file_throws:
  "readJustificationsFile (oneFileHost [''project'', rcName] Unreadable) [''project''] None
     = (Inl ReadError, [])
   \<and> fst (lintFile (oneFileHost [''project'', rcName] Unreadable) [''project''] None
          (Node ''Program'' []) freshProcess) = Inl ReadError
   \<and> readJustificationsFile_p1 (oneFileHost [''project'', rcName] Unreadable) [''project'']
        = toObject Map.empty"
proof -
  let ?h = "oneFileHost [''project'', rcName] Unreadable"
  have "readJustificationsFile ?h [''project''] None = searchUpward ?h [] ([] @ [''project''])"
    by (simp add: readJustificationsFile_def path_root_def)
  also have "\<dots> = (Inl ReadError, [])"
    by (simp only: searchUpward_snoc)
      (simp add: oneFileHost_def readAndParse_def readFileSync_def)
  finally have a: "readJustificationsFile ?h [''project''] None = (Inl ReadError, [])" .
  have b: "fst (lintFile ?h [''project''] None (Node ''Program'' []) freshProcess) = Inl ReadError"
    by (simp add: lintFile_result a)
  have c: "readJustificationsFile_p1 ?h [''project''] = toObject Map.empty"
    by (simp add: readJustificationsFile_p1_def oneFileHost_def existsSync_def readFileSync_def)
  from a b c show ?thesis by simp
qed

subsection \<open>C5: \<open>JSON.parse\<close> first, then the line format\<close>




subsection \<open>C6: \<open>process.env.NAME\<close> and \<open>process.env["NAME"]\<close>\<close>




subsection \<open>C7: the summary at the end of a file\<close>




subsection \<open>C8: a second run\<close>

text \<open>
  C8: a run of the rule on an unchanged file with an unchanged \<open>.nextpublicrc\<close> gives
  the diagnostics of the run before it, the same ones in the same order. In the first
  copy a run changes the state of the process (the global object, the listener, the
  console), and the result does not depend on that state: a second run, started in the
  state the first one left, returns what the first one returned, be it the list of the
  diagnostics or the error that ended the run. The second copy keeps no state: its
  result is that of the traversal with the store read from the file.
\<close>

theorem second_run_same_diagnostics:
  "fst (lintFile h cwd rcPath program (snd (lintFile h cwd rcPath program p)))
     = fst (lintFile h cwd rcPath program p)
   \<and> fst (lintFile h cwd rcPath program q) = fst (lintFile h cwd rcPath program p)
   \<and> fst (lintFile_p1 h cwd program)
     = map_sum id reports
         (traverse (enter_p1 h (readJustificationsFile_p1 h cwd)) program initial)"
  by (simp add: lintFile_result lintFile_p1_def Let_def split: sum.split)

theorem second_run_same_diagnostics_witness:
  "exitListeners (snd (lintFile (testHost ''{}'' (toObject Map.empty)) [''project''] None
      threeReferences freshProcess)) = 1
   \<and> exitListeners freshProcess = 0
   \<and> fst (lintFile (testHost ''{}'' (toObject Map.empty)) [''project''] None threeReferences
        (snd (lintFile (testHost ''{}'' (toObject Map.empty)) [''project''] None threeReferences
           freshProcess)))
     = Inr [\<lparr>node = Identifier ''NEXT_PUBLIC_A'', message = requiresMessage ''NEXT_PUBLIC_A''\<rparr>,
            \<lparr>node = Literal (StringValue ''NEXT_PUBLIC_B''), message = requiresMessage ''NEXT_PUBLIC_B''\<rparr>,
            \<lparr>node = Identifier ''NEXT_PUBLIC_A'', message = requiresMessage ''NEXT_PUBLIC_A''\<rparr>]"
proof -
  let ?h = "testHost ''{}'' (toObject Map.empty)"
  have a: "exitListeners (snd (lintFile ?h [''project''] None threeReferences freshProcess)) = 1"
    by code_simp
  have b: "exitListeners freshProcess = 0"
    by code_simp
  have c: "fst (lintFile ?h [''project''] None threeReferences freshProcess)
     = Inr [\<lparr>node = Identifier ''NEXT_PUBLIC_A'', message = requiresMessage ''NEXT_PUBLIC_A''\<rparr>,
            \<lparr>node = Literal (StringValue ''NEXT_PUBLIC_B''), message = requiresMessage ''NEXT_PUBLIC_B''\<rparr>,
            \<lparr>node = Identifier ''NEXT_PUBLIC_A'', message = requiresMessage ''NEXT_PUBLIC_A''\<rparr>]"
    by code_simp
  from second_run_same_diagnostics [of ?h "[''project'']" None threeReferences freshProcess
      freshProcess, THEN conjunct1] a b c
  show ?thesis
    by simp
qed

subsection \<open>C9: the identifier visitor tests the prefix only\<close>

text \<open>
  C9: every identifier whose name starts with \<open>NEXT_PUBLIC_\<close> is added to the set of
  found names and checked against the store, in both copies, whether or not the name
  matches \<open>NEXT_PUBLIC_[A-Z0-9_]+\<close>; when the store has no entry for it, the one
  diagnostic the visitor adds is \<open>requires justification\<close>. The theorem says so for a
  store that is an object of texts, and, in its last part, for every store that can be
  read and has no property of that name. The witness has the names \<open>NEXT_PUBLIC_\<close> and
  \<open>NEXT_PUBLIC_apiKey\<close>, in which the regular expression finds no match.
\<close>

theorem identifier_prefix_test_only:
  assumes "startsWith name NEXT_PUBLIC"
  shows "map_sum id (\<lambda>s. name \<in> set (foundVariables s))
        (traverse (enter h (toObject js)) (Identifier name) st) = Inr True
    \<and> map_sum id reports (traverse (enter h (toObject js)) (Identifier name) st)
        = Inr (reports st @ verdict 20 js (Identifier name) name)
    \<and> map_sum id (\<lambda>s. name \<in> set (foundVariables s))
        (traverse (enter_p1 h (toObject js)) (Identifier name) st) = Inr True
    \<and> map_sum id reports (traverse (enter_p1 h (toObject js)) (Identifier name) st)
        = Inr (reports st @ verdict 8 js (Identifier name) name)
    \<and> (js name = None \<longrightarrow>
          verdict 20 js (Identifier name) name
            = [\<lparr>node = Identifier name, message = requiresMessage name\<rparr>]
        \<and> verdict 8 js (Identifier name) name
            = [\<lparr>node = Identifier name, message = requiresMessage name\<rparr>])
    \<and> (getProperty j name = Inr None \<longrightarrow>
          map_sum id (\<lambda>s. (name \<in> set (foundVariables s), reports s))
            (traverse (enter h j) (Identifier name) st)
            = Inr (True, reports st @ [\<lparr>node = Identifier name, message = requiresMessage name\<rparr>])
        \<and> map_sum id (\<lambda>s. (name \<in> set (foundVariables s), reports s))
            (traverse (enter_p1 h j) (Identifier name) st)
            = Inr (True, reports st @ [\<lparr>node = Identifier name, message = requiresMessage name\<rparr>]))"
  using assms
  by (simp add: enter_def enter_p1_def Identifier_visitor_def Identifier_visitor_p1_def
      checkJustification_text checkJustification_p1_text checked_def set_setAdd verdict_def)
    (simp add: checkJustification_def checkJustification_p1_def falsy_def report_def set_setAdd)

theorem identifier_prefix_test_only_witness:
  "startsWith ''NEXT_PUBLIC_'' NEXT_PUBLIC
   \<and> matchNextPublic ''NEXT_PUBLIC_'' = []
   \<and> map_sum id reports
        (traverse (enter (testHost ''{}'' (toObject Map.empty)) (toObject Map.empty))
           (Identifier ''NEXT_PUBLIC_'') initial)
       = Inr [\<lparr>node = Identifier ''NEXT_PUBLIC_'', message = requiresMessage ''NEXT_PUBLIC_''\<rparr>]
   \<and> map_sum id foundVariables
        (traverse (enter (testHost ''{}'' (toObject Map.empty)) (toObject Map.empty))
           (Identifier ''NEXT_PUBLIC_'') initial)
       = Inr [''NEXT_PUBLIC_'']
   \<and> startsWith ''NEXT_PUBLIC_apiKey'' NEXT_PUBLIC
   \<and> matchNextPublic ''NEXT_PUBLIC_apiKey'' = []
   \<and> map_sum id reports
        (traverse (enter_p1 (testHost ''{}'' (toObject Map.empty)) (toObject Map.empty))
           (Identifier ''NEXT_PUBLIC_apiKey'') initial)
       = Inr [\<lparr>node = Identifier ''NEXT_PUBLIC_apiKey'',
                message = requiresMessage ''NEXT_PUBLIC_apiKey''\<rparr>]
   \<and> map_sum id (\<lambda>s. (''NEXT_PUBLIC_apiKey'' \<in> set (foundVariables s), reports s))
        (traverse (enter (testHost ''[]'' (JArray [])) (JArray []))
           (Identifier ''NEXT_PUBLIC_apiKey'') initial)
       = Inr (True, [\<lparr>node = Identifier ''NEXT_PUBLIC_apiKey'',
                        message = requiresMessage ''NEXT_PUBLIC_apiKey''\<rparr>])"
proof -
  let ?h = "testHost ''{}'' (toObject Map.empty)"
  let ?g = "testHost ''[]'' (JArray [])"
  have a: "startsWith ''NEXT_PUBLIC_'' NEXT_PUBLIC"
    by (simp add: startsWith_def NEXT_PUBLIC_def)
  have b: "startsWith ''NEXT_PUBLIC_apiKey'' NEXT_PUBLIC"
    by (simp add: startsWith_def NEXT_PUBLIC_def)
  have c: "matchNextPublic ''NEXT_PUBLIC_'' = []"
    by code_simp
  have d: "matchNextPublic ''NEXT_PUBLIC_apiKey'' = []"
    by code_simp
  have e: "map_sum id foundVariables
        (traverse (enter ?h (toObject Map.empty)) (Identifier ''NEXT_PUBLIC_'') initial)
       = Inr [''NEXT_PUBLIC_'']"
    by code_simp
  have f: "getProperty (JArray []) ''NEXT_PUBLIC_apiKey'' = Inr None"
    by (simp add: getProperty_def)
  show ?thesis
    using identifier_prefix_test_only [OF a, of ?h Map.empty initial]
      identifier_prefix_test_only [OF b, of ?h Map.empty initial]
      identifier_prefix_test_only [OF b, where h = ?g and j = "JArray []" and st = initial]
      a b c d e f
    by (simp add: initial_def)
qed

subsection \<open>C10: the root directory is never examined\<close>

text \<open>
  C10: the loop of the first copy runs only while the current directory differs from the
  root. When no explicit file is in use and no directory from the working directory up
  to, but not including, the root has a \<open>.nextpublicrc\<close>, the loader returns the empty
  store, also when the root has a readable one.
\<close>

theorem root_file_never_read:
  assumes "\<And>r. rcPath = Some r \<Longrightarrow> r \<noteq> [] \<Longrightarrow> fs h (path_resolve h cwd r) = Absent"
    and "\<And>d. d \<noteq> [] \<Longrightarrow> prefix d cwd \<Longrightarrow> fs h (join d rcName) = Absent"
    and "fs h (join (path_root cwd) rcName) = Readable content"
  shows "fst (readJustificationsFile h cwd rcPath) = Inr (toObject Map.empty)"
proof -
  have "readJustificationsFile h cwd rcPath = searchUpward h [] cwd"
    using assms(1) by (rule readJustificationsFile_search)
  also have "\<dots> = notFound"
    using assms(2) by (intro searchUpward_absent) (simp add: join_def)
  finally show ?thesis
    by (simp add: notFound_def)
qed

theorem root_file_never_read_witness:
  "fs (oneFileHost [rcName] (Readable ''NEXT_PUBLIC_API_URL=x'')) (join (path_root [''home'', ''project'']) rcName)
     = Readable ''NEXT_PUBLIC_API_URL=x''
   \<and> fst (readJustificationsFile (oneFileHost [rcName] (Readable ''NEXT_PUBLIC_API_URL=x''))
        [''home'', ''project''] None) = Inr (toObject Map.empty)"
proof -
  let ?h = "oneFileHost [rcName] (Readable ''NEXT_PUBLIC_API_URL=x'')"
  have root: "fs ?h (join (path_root [''home'', ''project'']) rcName) = Readable ''NEXT_PUBLIC_API_URL=x''"
    by (simp add: oneFileHost_def join_def path_root_def)
  have below: "fs ?h (join d rcName) = Absent" if "d \<noteq> []" for d
    using that by (simp add: oneFileHost_def join_def)
  have "fst (readJustificationsFile ?h [''home'', ''project''] None) = Inr (toObject Map.empty)"
    by (rule root_file_never_read [where content = "''NEXT_PUBLIC_API_URL=x''"]) (simp_all add: below root)
  with root show ?thesis by simp
qed

end
